theory Spec2Isabelle
  imports Main "HOL-Library.Word"
begin

unbundle bit_operations_syntax

section \<open>Exceptions\<close>

text \<open>
  Every exception the two modules raise, as a value. The three Schematron classes of
  \<^verbatim>\<open>schematron.pxi\<close> carry their message; \<open>SchematronParseError\<close> and
  \<open>SchematronValidateError\<close> are subclasses of \<open>SchematronError\<close> in the source and
  distinct constructors here. \<open>NullDereference\<close> is not a Python exception: it stands
  for native code reading a field through a NULL \<^verbatim>\<open>xmlNode*\<close>. \<open>Raised\<close> is any
  exception of code outside the two modules (a user callback, a helper of lxml.etree).
\<close>

datatype py_error =
    SchematronError string
  | SchematronParseError string
  | SchematronValidateError string
  | MemoryError
  | AssertionError string
  | IndexError string
  | ValueError string
  | SystemError
  | NullDereference
  | Raised string

section \<open>schematron.pxi\<close>

subsection \<open>The native library and the helpers of lxml.etree\<close>

text \<open>
  Native handles are addresses; a NULL pointer is \<open>None\<close>. A C \<^verbatim>\<open>int\<close> is a
  32-bit word.
\<close>

type_synonym xmlDocPtr = nat
type_synonym xmlNodePtr = nat
type_synonym parserCtxtPtr = nat
type_synonym validCtxtPtr = nat
type_synonym schemaPtr = nat
type_synonym c_int = "32 word"

text \<open>
  What \<^verbatim>\<open>schematron.pxi\<close> uses and does not define: the build switch
  \<^verbatim>\<open>config.ENABLE_SCHEMATRON\<close>, the library version, the two output flags, the helpers
  of lxml.etree and the functions of libxml2. They are parameters of the model. \<open>'e\<close> is
  the type of the Python object passed as \<^verbatim>\<open>etree\<close>, \<open>'f\<close> of the one passed as
  \<^verbatim>\<open>file\<close> (a file name is such an object too).
\<close>

record ('e, 'f) libxml =
  ENABLE_SCHEMATRON :: bool
  LIBXML_VERSION :: int
  XML_SCHEMATRON_OUT_QUIET :: c_int
  XML_SCHEMATRON_OUT_XML :: c_int
  documentOrRaise :: "'e \<Rightarrow> py_error + xmlDocPtr"
  rootNodeOrRaise :: "'e \<Rightarrow> py_error + xmlNodePtr"
  copyDocRoot :: "xmlDocPtr \<Rightarrow> xmlNodePtr \<Rightarrow> xmlDocPtr"
  fakeRootDoc :: "xmlDocPtr \<Rightarrow> xmlNodePtr \<Rightarrow> xmlDocPtr"
  getFilenameForFile :: "'f \<Rightarrow> 'f option"
  encodeFilename :: "'f \<Rightarrow> py_error + string"
  xmlSchematronNewDocParserCtxt :: "xmlDocPtr \<Rightarrow> parserCtxtPtr option"
  xmlSchematronNewParserCtxt :: "string \<Rightarrow> parserCtxtPtr option"
  xmlSchematronParse :: "parserCtxtPtr \<Rightarrow> schemaPtr option"
  xmlSchematronNewValidCtxt :: "schemaPtr option \<Rightarrow> c_int \<Rightarrow> validCtxtPtr option"
  xmlSchematronValidateDoc :: "validCtxtPtr \<Rightarrow> xmlDocPtr \<Rightarrow> c_int"

subsection \<open>The resources a call holds\<close>

text \<open>
  The effects of the two methods on what they allocate and connect: the number of live
  native objects of each kind, whether the validator's error log is connected, and
  whether the interpreter lock is held.
\<close>

record resources =
  error_log_connected :: bool
  parser_ctxts :: nat
  valid_ctxts :: nat
  copied_docs :: nat
  fake_docs :: nat
  schemas :: nat
  gil_held :: bool

definition error_log_connect :: "resources \<Rightarrow> resources" where
  "error_log_connect w = w\<lparr>error_log_connected := True\<rparr>"

definition error_log_disconnect :: "resources \<Rightarrow> resources" where
  "error_log_disconnect w = w\<lparr>error_log_connected := False\<rparr>"

definition PyEval_SaveThread :: "resources \<Rightarrow> resources" where
  "PyEval_SaveThread w = w\<lparr>gil_held := False\<rparr>"

definition PyEval_RestoreThread :: "resources \<Rightarrow> resources" where
  "PyEval_RestoreThread w = w\<lparr>gil_held := True\<rparr>"

definition xmlSchematronFreeValidCtxt :: "resources \<Rightarrow> resources" where
  "xmlSchematronFreeValidCtxt w = w\<lparr>valid_ctxts := valid_ctxts w - 1\<rparr>"

definition xmlSchematronFreeParserCtxt :: "resources \<Rightarrow> resources" where
  "xmlSchematronFreeParserCtxt w = w\<lparr>parser_ctxts := parser_ctxts w - 1\<rparr>"

definition destroyFakeDoc :: "resources \<Rightarrow> resources" where
  "destroyFakeDoc w = w\<lparr>fake_docs := fake_docs w - 1\<rparr>"

subsection \<open>Schematron.__init__\<close>

text \<open>
  The parser context of the first two branches of \<^verbatim>\<open>__init__\<close>: from a copy of the
  tree, or from the file name. \<open>Inl\<close> is an exception raised on the way.
\<close>

definition new_parser_ctxt ::
  "('e, 'f) libxml \<Rightarrow> 'e option \<Rightarrow> 'f option \<Rightarrow> resources \<Rightarrow>
   (py_error + parserCtxtPtr option) \<times> resources" where
  "new_parser_ctxt L etree file w =
     (case etree of
        Some et \<Rightarrow>
          (case documentOrRaise L et of
             Inl e \<Rightarrow> (Inl e, w)
           | Inr doc \<Rightarrow>
               (case rootNodeOrRaise L et of
                  Inl e \<Rightarrow> (Inl e, w)
                | Inr root_node \<Rightarrow>
                    (let c_doc = copyDocRoot L doc root_node;
                         w1 = w\<lparr>copied_docs := copied_docs w + 1\<rparr>
                     in case xmlSchematronNewDocParserCtxt L c_doc of
                          None \<Rightarrow> (Inr None, w1)
                        | Some p \<Rightarrow> (Inr (Some p), w1\<lparr>parser_ctxts := parser_ctxts w1 + 1\<rparr>))))
      | None \<Rightarrow>
          (case file of
             Some fl \<Rightarrow>
               (let filename = (case getFilenameForFile L fl of None \<Rightarrow> fl | Some fn \<Rightarrow> fn)
                in case encodeFilename L filename of
                     Inl e \<Rightarrow> (Inl e, w)
                   | Inr c_name \<Rightarrow>
                       (case xmlSchematronNewParserCtxt L c_name of
                          None \<Rightarrow> (Inr None, w)
                        | Some p \<Rightarrow> (Inr (Some p), w\<lparr>parser_ctxts := parser_ctxts w + 1\<rparr>)))
           | None \<Rightarrow> (Inl (SchematronParseError ''No tree or file given''), w)))"

text \<open>
  \<^verbatim>\<open>__init__(self, etree=None, file=None)\<close>: the result is the compiled schema
  \<^verbatim>\<open>self._c_schema\<close> of the new validator, or the exception.
\<close>

definition Schematron_init ::
  "('e, 'f) libxml \<Rightarrow> 'e option \<Rightarrow> 'f option \<Rightarrow> resources \<Rightarrow>
   (py_error + schemaPtr) \<times> resources" where
  "Schematron_init L etree file w =
     (if \<not> ENABLE_SCHEMATRON L
      then (Inl (SchematronError ''lxml.etree was compiled without Schematron support.''), w)
      else
        (case new_parser_ctxt L etree file w of
           (Inl e, w1) \<Rightarrow> (Inl e, w1)
         | (Inr None, w1) \<Rightarrow> (Inl MemoryError, w1)
         | (Inr (Some parser_ctxt), w1) \<Rightarrow>
             (let c_schema = xmlSchematronParse L parser_ctxt;
                  w2 = (case c_schema of None \<Rightarrow> w1 | Some _ \<Rightarrow> w1\<lparr>schemas := schemas w1 + 1\<rparr>);
                  w3 = xmlSchematronFreeParserCtxt w2
              in case c_schema of
                   None \<Rightarrow>
                     (Inl (SchematronParseError ''Document is not a valid Schematron schema''), w3)
                 | Some s \<Rightarrow> (Inr s, w3))))"

subsection \<open>Schematron.__call__\<close>

definition valid_options :: "('e, 'f) libxml \<Rightarrow> c_int" where
  "valid_options L =
     (let options = XML_SCHEMATRON_OUT_QUIET L
      in if LIBXML_VERSION L \<le> 20629 then options OR XML_SCHEMATRON_OUT_XML L else options)"

text \<open>
  The three last statements of \<^verbatim>\<open>__call__\<close>: the verdict from the return code of
  \<^verbatim>\<open>xmlSchematronValidateDoc\<close>.
\<close>

definition verdict :: "c_int \<Rightarrow> py_error + bool" where
  "verdict ret =
     (if ret = - 1 then Inl (SchematronValidateError ''Internal error in Schematron validation'')
      else if ret = 0 then Inr True
      else Inr False)"

definition Schematron_call ::
  "('e, 'f) libxml \<Rightarrow> schemaPtr option \<Rightarrow> 'e \<Rightarrow> resources \<Rightarrow> (py_error + bool) \<times> resources" where
  "Schematron_call L c_schema etree w =
     (case documentOrRaise L etree of
        Inl e \<Rightarrow> (Inl e, w)
      | Inr doc \<Rightarrow>
          (case rootNodeOrRaise L etree of
             Inl e \<Rightarrow> (Inl e, w)
           | Inr root_node \<Rightarrow>
               (let w1 = error_log_connect w;
                    options = valid_options L
                in case xmlSchematronNewValidCtxt L c_schema options of
                     None \<Rightarrow>
                       (Inl (SchematronError ''Failed to create validation context''),
                        error_log_disconnect w1)
                   | Some valid_ctxt \<Rightarrow>
                       (let w2 = w1\<lparr>valid_ctxts := valid_ctxts w1 + 1\<rparr>;
                            c_doc = fakeRootDoc L doc root_node;
                            w3 = w2\<lparr>fake_docs := fake_docs w2 + 1\<rparr>;
                            w4 = PyEval_SaveThread w3;
                            ret = xmlSchematronValidateDoc L valid_ctxt c_doc;
                            w5 = PyEval_RestoreThread w4;
                            w6 = destroyFakeDoc w5;
                            w7 = xmlSchematronFreeValidCtxt w6;
                            w8 = error_log_disconnect w7
                        in (verdict ret, w8)))))"

subsection \<open>A sample library\<close>

text \<open>
  A library for concrete runs: Schematron support switched on or off, every helper
  succeeding, the validation context given, and the validator returning the given code.
  The tree and the file are the unit value.
\<close>

definition sample_libxml :: "bool \<Rightarrow> validCtxtPtr option \<Rightarrow> c_int \<Rightarrow> (unit, unit) libxml" where
  "sample_libxml enabled ctxt ret =
     \<lparr>ENABLE_SCHEMATRON = enabled, LIBXML_VERSION = 20631,
      XML_SCHEMATRON_OUT_QUIET = 1, XML_SCHEMATRON_OUT_XML = 4,
      documentOrRaise = (\<lambda>_. Inr 10), rootNodeOrRaise = (\<lambda>_. Inr 11),
      copyDocRoot = (\<lambda>_ _. 12), fakeRootDoc = (\<lambda>_ _. 13),
      getFilenameForFile = (\<lambda>_. None), encodeFilename = (\<lambda>_. Inr ''schema.sch''),
      xmlSchematronNewDocParserCtxt = (\<lambda>_. Some 20), xmlSchematronNewParserCtxt = (\<lambda>_. Some 21),
      xmlSchematronParse = (\<lambda>_. Some 30), xmlSchematronNewValidCtxt = (\<lambda>_ _. ctxt),
      xmlSchematronValidateDoc = (\<lambda>_ _. ret)\<rparr>"

text \<open>
  The sample library with Schematron support, but with a file name that cannot be
  encoded: compiling from a file alone raises.
\<close>

definition bad_file_libxml :: "(unit, unit) libxml" where
  "bad_file_libxml =
     (sample_libxml True (Some 40) 0)\<lparr>encodeFilename := (\<lambda>_. Inl (Raised ''TypeError''))\<rparr>"

definition idle :: resources where
  "idle = \<lparr>error_log_connected = False, parser_ctxts = 0, valid_ctxts = 0, copied_docs = 0,
            fake_docs = 0, schemas = 0, gil_held = True\<rparr>"

section \<open>lxml.pyclasslookup.pyx\<close>

subsection \<open>The native tree\<close>

text \<open>
  The nodes of libxml2, with the fields the module reads: the type, the name, the
  namespace (\<^verbatim>\<open>c_node.ns\<close>, with its \<^verbatim>\<open>href\<close> and \<^verbatim>\<open>prefix\<close>), the attributes
  and the children.
\<close>

datatype xmlElementType =
    XML_ELEMENT_NODE
  | XML_TEXT_NODE
  | XML_CDATA_SECTION_NODE
  | XML_ENTITY_REF_NODE
  | XML_PI_NODE
  | XML_COMMENT_NODE
  | XML_DOCUMENT_NODE

record xmlNs =
  ns_href :: string
  ns_prefix :: "string option"

record xmlAttr =
  attr_href :: "string option"
  attr_name :: string
  attr_value :: string

record xmlNodeInfo =
  node_type :: xmlElementType
  node_name :: string
  node_ns :: "xmlNs option"
  properties :: "xmlAttr list"

datatype xmlNode = XmlNode (info: xmlNodeInfo) (children: "xmlNode list")

text \<open>
  A node pointer \<^verbatim>\<open>xmlNode*\<close> is a position in the document: the node it points at
  and, for every ancestor from its parent up to the document, the ancestor's own
  fields with the siblings to the left (the nearest first) and to the right of the
  path. The pointer fields \<^verbatim>\<open>children\<close>, \<^verbatim>\<open>last\<close>, \<^verbatim>\<open>next\<close>, \<^verbatim>\<open>prev\<close> and
  \<^verbatim>\<open>parent\<close> of the C structure are the moves below; a NULL pointer is \<open>None\<close>.
  The tree does not change while proxies exist, so two pointers are equal exactly when
  they are the same position.
\<close>

datatype step = Step (lefts: "xmlNode list") (above: xmlNodeInfo) (rights: "xmlNode list")

type_synonym node_ptr = "xmlNode \<times> step list"

definition c_children :: "node_ptr \<Rightarrow> node_ptr option" where
  "c_children p =
     (case children (fst p) of
        [] \<Rightarrow> None
      | c # cs \<Rightarrow> Some (c, Step [] (info (fst p)) cs # snd p))"

definition c_last :: "node_ptr \<Rightarrow> node_ptr option" where
  "c_last p =
     (case rev (children (fst p)) of
        [] \<Rightarrow> None
      | c # cs \<Rightarrow> Some (c, Step cs (info (fst p)) [] # snd p))"

definition c_next :: "node_ptr \<Rightarrow> node_ptr option" where
  "c_next p =
     (case snd p of
        [] \<Rightarrow> None
      | Step ls a rs # up \<Rightarrow>
          (case rs of
             [] \<Rightarrow> None
           | r # rs' \<Rightarrow> Some (r, Step (fst p # ls) a rs' # up)))"

definition c_prev :: "node_ptr \<Rightarrow> node_ptr option" where
  "c_prev p =
     (case snd p of
        [] \<Rightarrow> None
      | Step ls a rs # up \<Rightarrow>
          (case ls of
             [] \<Rightarrow> None
           | l # ls' \<Rightarrow> Some (l, Step ls' a (fst p # rs) # up)))"

definition c_parent :: "node_ptr \<Rightarrow> node_ptr option" where
  "c_parent p =
     (case snd p of
        [] \<Rightarrow> None
      | Step ls a rs # up \<Rightarrow> Some (XmlNode a (rev ls @ fst p # rs), up))"

text \<open>The number of siblings after (before) a node: what a walk along \<^verbatim>\<open>next\<close>
  (\<^verbatim>\<open>prev\<close>) has left.\<close>

definition ahead :: "node_ptr option \<Rightarrow> nat" where
  "ahead c_node =
     (case c_node of
        None \<Rightarrow> 0
      | Some p \<Rightarrow> (case snd p of [] \<Rightarrow> 1 | s # _ \<Rightarrow> Suc (length (rights s))))"

definition behind :: "node_ptr option \<Rightarrow> nat" where
  "behind c_node =
     (case c_node of
        None \<Rightarrow> 0
      | Some p \<Rightarrow> (case snd p of [] \<Rightarrow> 1 | s # _ \<Rightarrow> Suc (length (lefts s))))"

lemma ahead_c_next [termination_simp]: "ahead (c_next p) < ahead (Some p)"
  by (simp add: ahead_def c_next_def split: list.split step.split)

lemma behind_c_prev [termination_simp]: "behind (c_prev p) < behind (Some p)"
  by (simp add: behind_def c_prev_def split: list.split step.split)

text \<open>The chain \<^verbatim>\<open>c_node, c_node.next, c_node.next.next, ...\<close> up to NULL, and the
  chain along \<^verbatim>\<open>prev\<close>.\<close>

function siblings_from :: "node_ptr option \<Rightarrow> node_ptr list" where
  "siblings_from None = []"
| "siblings_from (Some p) = p # siblings_from (c_next p)"
  by pat_completeness auto
termination
  by (relation "measure ahead") (simp_all add: ahead_c_next)

function siblings_back :: "node_ptr option \<Rightarrow> node_ptr list" where
  "siblings_back None = []"
| "siblings_back (Some p) = p # siblings_back (c_prev p)"
  by pat_completeness auto
termination
  by (relation "measure behind") (simp_all add: behind_c_prev)

subsection \<open>The helpers of lxml.etree\<close>

text \<open>
  What the module uses of lxml.etree and libxml2 and no property below depends on is a
  parameter: the macro \<^verbatim>\<open>tree._isElement\<close>, \<^verbatim>\<open>cetree.textOf\<close>, \<^verbatim>\<open>cetree.tailOf\<close>,
  \<^verbatim>\<open>cetree.pyunicode\<close> and \<^verbatim>\<open>tree.xmlGetLineNo\<close>.
\<close>

record etree_api =
  isElement :: "xmlNode \<Rightarrow> bool"
  textOf :: "node_ptr \<Rightarrow> string option"
  tailOf :: "node_ptr \<Rightarrow> string option"
  pyunicode :: "string \<Rightarrow> string"
  xmlGetLineNo :: "node_ptr \<Rightarrow> int"

text \<open>
  Modelled from the spec: \<^verbatim>\<open>cetree.namespacedName\<close> is not in the sources. The spec
  calls the tag a qualified name and writes a qualified name as a bare name or as
  \<^verbatim>\<open>{namespace}name\<close>.
\<close>

definition namespacedNameFromNsName :: "string option \<Rightarrow> string \<Rightarrow> string" where
  "namespacedNameFromNsName href name =
     (case href of None \<Rightarrow> name | Some ns \<Rightarrow> ''{'' @ ns @ ''}'' @ name)"

text \<open>Modelled from the spec: the qualified name of a node, from its namespace and name.\<close>

definition namespacedName :: "node_ptr \<Rightarrow> string" where
  "namespacedName p =
     namespacedNameFromNsName (map_option ns_href (node_ns (info (fst p))))
       (node_name (info (fst p)))"

text \<open>
  Modelled from the spec: \<^verbatim>\<open>cetree.findChild\<close> and \<^verbatim>\<open>cetree.findChildBackwards\<close>
  are not in the sources. By the spec, indexed child access yields the Nth element-type
  child, skipping the siblings that are not elements, and nothing when the index is out
  of range. The spec counts from the front; for a negative index the model counts from
  the back, as Python sequences do, and \<^verbatim>\<open>findChildBackwards\<close> counts from the last
  child. Both read the fields of the node they are given: on a NULL pointer the read
  is a \<open>NullDereference\<close>.
\<close>

text \<open>The children of a node that are elements, from the first on and from the last
  on, and the entry of such a list at an index, NULL when there is none.\<close>

definition element_children :: "etree_api \<Rightarrow> node_ptr \<Rightarrow> node_ptr list" where
  "element_children T p = filter (\<lambda>c. isElement T (fst c)) (siblings_from (c_children p))"

definition element_children_backwards :: "etree_api \<Rightarrow> node_ptr \<Rightarrow> node_ptr list" where
  "element_children_backwards T p = filter (\<lambda>c. isElement T (fst c)) (siblings_back (c_last p))"

definition nth_or_NULL :: "node_ptr list \<Rightarrow> int \<Rightarrow> node_ptr option" where
  "nth_or_NULL cs index =
     (if 0 \<le> index \<and> index < int (length cs) then Some (cs ! nat index) else None)"

text \<open>Modelled from the spec: the element-type child at an index counted from the last
  child.\<close>

definition findChildBackwards :: "etree_api \<Rightarrow> node_ptr option \<Rightarrow> int \<Rightarrow> py_error + node_ptr option" where
  "findChildBackwards T c_node index =
     (case c_node of
        None \<Rightarrow> Inl NullDereference
      | Some p \<Rightarrow> Inr (nth_or_NULL (element_children_backwards T p) index))"

text \<open>Modelled from the spec: the Nth element-type child, NULL when the index is out of
  range.\<close>

definition findChild :: "etree_api \<Rightarrow> node_ptr option \<Rightarrow> int \<Rightarrow> py_error + node_ptr option" where
  "findChild T c_node index =
     (if index < 0 then findChildBackwards T c_node (- index - 1)
      else
        (case c_node of
           None \<Rightarrow> Inl NullDereference
         | Some p \<Rightarrow> Inr (nth_or_NULL (element_children T p) index)))"

text \<open>
  Modelled from the spec: \<^verbatim>\<open>cetree.nextElement\<close> and \<^verbatim>\<open>cetree.previousElement\<close>
  are not in the sources. By the spec, sibling navigation skips the neighbours that are
  not elements and yields nothing at the boundary of the tree.
\<close>

definition nextElement :: "etree_api \<Rightarrow> node_ptr \<Rightarrow> node_ptr option" where
  "nextElement T p = find (\<lambda>c. isElement T (fst c)) (siblings_from (c_next p))"

text \<open>Modelled from the spec: the nearest sibling before the node that is an element.\<close>

definition previousElement :: "etree_api \<Rightarrow> node_ptr \<Rightarrow> node_ptr option" where
  "previousElement T p = find (\<lambda>c. isElement T (fst c)) (siblings_back (c_prev p))"

text \<open>
  Modelled from the spec: \<^verbatim>\<open>cetree.collectAttributes\<close>, \<^verbatim>\<open>cetree.getNsTag\<close> and
  \<^verbatim>\<open>cetree.attributeValueFromNsName\<close> are not in the sources. By the spec, a key is a
  bare name or has the form \<^verbatim>\<open>{namespace}name\<close>, and the lookup is the tree's
  namespace-aware attribute lookup by (namespace-or-none, local name). The collection
  mode is 1 for the names, 2 for the values and 3 for the (name, value) pairs, as the
  three callers use it. A key is split at its first closing brace. The spec does not
  say what a malformed key gives: the model raises \<open>ValueError\<close>.
\<close>

datatype py_attrs =
    Names "string list"
  | Vals "string list"
  | Pairs "(string \<times> string) list"

definition attr_key :: "xmlAttr \<Rightarrow> string" where
  "attr_key a = namespacedNameFromNsName (attr_href a) (attr_name a)"

text \<open>Modelled from the spec: the names, the values or the pairs of the attributes.\<close>

definition collectAttributes :: "node_ptr \<Rightarrow> int \<Rightarrow> py_attrs" where
  "collectAttributes p collecttype =
     (let attrs = properties (info (fst p))
      in if collecttype = 1 then Names (map attr_key attrs)
         else if collecttype = 2 then Vals (map attr_value attrs)
         else Pairs (map (\<lambda>a. (attr_key a, attr_value a)) attrs))"

text \<open>Modelled from the spec: the namespace and the local name of a key.\<close>

definition getNsTag :: "string \<Rightarrow> py_error + (string option \<times> string)" where
  "getNsTag key =
     (case key of
        [] \<Rightarrow> Inl (ValueError ''Empty tag name'')
      | c # rest \<Rightarrow>
          if c = CHR ''{'' then
            (if CHR ''}'' \<notin> set rest then Inl (ValueError ''Invalid tag name'')
             else
               (let ns = takeWhile (\<lambda>x. x \<noteq> CHR ''}'') rest;
                    name = tl (dropWhile (\<lambda>x. x \<noteq> CHR ''}'') rest)
                in if name = [] then Inl (ValueError ''Empty tag name'')
                   else Inr (if ns = [] then None else Some ns, name)))
          else Inr (None, key))"

text \<open>Modelled from the spec: the attribute lookup by namespace-or-none and local name.\<close>

definition attributeValueFromNsName :: "node_ptr \<Rightarrow> string option \<Rightarrow> string \<Rightarrow> string option" where
  "attributeValueFromNsName p c_href c_name =
     map_option attr_value
       (find (\<lambda>a. attr_href a = c_href \<and> attr_name a = c_name) (properties (info (fst p))))"

subsection \<open>Proxy objects\<close>

text \<open>
  The three fields of \<^verbatim>\<open>_ElementProxy\<close>. A Python reference is the number of the
  object in the store; the store gives the fields of every object and counts the
  objects created so far. \<open>None\<close> in \<open>source_proxy\<close> and \<open>dependent_proxies\<close> is
  Python's \<^verbatim>\<open>None\<close>, the value of both fields in a new object. Exhaustion of memory
  is not modelled.
\<close>

type_synonym proxy_ref = nat

record ElementProxy =
  c_node :: "node_ptr option"
  source_proxy :: "proxy_ref option"
  dependent_proxies :: "proxy_ref list option"

record heap =
  objs :: "proxy_ref \<Rightarrow> ElementProxy"
  nobjs :: nat

definition NEW_PROXY :: "heap \<Rightarrow> proxy_ref \<times> heap" where
  "NEW_PROXY h =
     (nobjs h,
      \<lparr>objs = (objs h)(nobjs h :=
                \<lparr>c_node = None, source_proxy = None, dependent_proxies = None\<rparr>),
       nobjs = Suc (nobjs h)\<rparr>)"

definition update_proxy :: "proxy_ref \<Rightarrow> (ElementProxy \<Rightarrow> ElementProxy) \<Rightarrow> heap \<Rightarrow> heap" where
  "update_proxy r f h = h\<lparr>objs := (objs h)(r := f (objs h r))\<rparr>"

text \<open>
  \<^verbatim>\<open>_newProxy\<close>. \<^verbatim>\<open>PyList_Append\<close> fails on an object that is not a list: the
  registry of a source proxy that is not the root of a graph is \<^verbatim>\<open>None\<close>.
\<close>

definition newProxy ::
  "proxy_ref option \<Rightarrow> node_ptr option \<Rightarrow> heap \<Rightarrow> (py_error + proxy_ref) \<times> heap" where
  "newProxy sourceProxy c_node' h =
     (let (el, h1) = NEW_PROXY h;
          h2 = update_proxy el (\<lambda>obj. obj\<lparr>c_node := c_node'\<rparr>) h1
      in case sourceProxy of
           None \<Rightarrow>
             (Inr el,
              update_proxy el (\<lambda>obj. obj\<lparr>dependent_proxies := Some [el]\<rparr>)
                (update_proxy el (\<lambda>obj. obj\<lparr>source_proxy := Some el\<rparr>) h2))
         | Some sp \<Rightarrow>
             (let h3 = update_proxy el (\<lambda>obj. obj\<lparr>source_proxy := Some sp\<rparr>) h2
              in case dependent_proxies (objs h3 sp) of
                   None \<Rightarrow> (Inl SystemError, h3)
                 | Some deps \<Rightarrow>
                     (Inr el,
                      update_proxy sp (\<lambda>obj. obj\<lparr>dependent_proxies := Some (deps @ [el])\<rparr>) h3)))"

text \<open>\<^verbatim>\<open>_freeProxies\<close>.\<close>

definition freeProxies :: "proxy_ref option \<Rightarrow> heap \<Rightarrow> heap" where
  "freeProxies sourceProxy h =
     (case sourceProxy of
        None \<Rightarrow> h
      | Some sp \<Rightarrow>
          (case dependent_proxies (objs h sp) of
             None \<Rightarrow> h
           | Some deps \<Rightarrow>
               (let h1 = fold (\<lambda>el. update_proxy el (\<lambda>obj. obj\<lparr>c_node := None\<rparr>)) deps h
                in update_proxy sp (\<lambda>obj. obj\<lparr>dependent_proxies := Some []\<rparr>) h1)))"

subsection \<open>The accessors of a proxy\<close>

text \<open>
  \<^verbatim>\<open>_assertNode\<close>: the assertion that the node pointer is not NULL. The model returns
  the pointer where the source returns 0.
\<close>

definition assertNode :: "ElementProxy \<Rightarrow> py_error + node_ptr" where
  "assertNode self =
     (case c_node self of
        None \<Rightarrow> Inl (AssertionError ''Proxy invalidated!'')
      | Some p \<Rightarrow> Inr p)"

definition tag :: "heap \<Rightarrow> proxy_ref \<Rightarrow> py_error + string" where
  "tag h self =
     (case assertNode (objs h self) of
        Inl e \<Rightarrow> Inl e
      | Inr p \<Rightarrow> Inr (namespacedName p))"

definition text_of_proxy :: "etree_api \<Rightarrow> heap \<Rightarrow> proxy_ref \<Rightarrow> py_error + string option" where
  "text_of_proxy T h self =
     (case assertNode (objs h self) of
        Inl e \<Rightarrow> Inl e
      | Inr p \<Rightarrow> Inr (textOf T p))"

definition tail :: "etree_api \<Rightarrow> heap \<Rightarrow> proxy_ref \<Rightarrow> py_error + string option" where
  "tail T h self =
     (case assertNode (objs h self) of
        Inl e \<Rightarrow> Inl e
      | Inr p \<Rightarrow> Inr (tailOf T p))"

text \<open>\<^verbatim>\<open>dict\<close> of a list of pairs: a later pair replaces an earlier one of the same key.\<close>

definition dict :: "py_attrs \<Rightarrow> py_error + (string \<rightharpoonup> string)" where
  "dict items =
     (case items of
        Pairs kvs \<Rightarrow> Inr (map_of (rev kvs))
      | _ \<Rightarrow> Inl (Raised ''TypeError''))"

definition attrib :: "heap \<Rightarrow> proxy_ref \<Rightarrow> py_error + (string \<rightharpoonup> string)" where
  "attrib h self =
     (case assertNode (objs h self) of
        Inl e \<Rightarrow> Inl e
      | Inr p \<Rightarrow> dict (collectAttributes p 3))"

definition prefix_of_proxy :: "etree_api \<Rightarrow> heap \<Rightarrow> proxy_ref \<Rightarrow> py_error + string option" where
  "prefix_of_proxy T h self =
     (case assertNode (objs h self) of
        Inl e \<Rightarrow> Inl e
      | Inr p \<Rightarrow>
          (case node_ns (info (fst p)) of
             None \<Rightarrow> Inr None
           | Some ns \<Rightarrow>
               (case ns_prefix ns of
                  None \<Rightarrow> Inr None
                | Some pf \<Rightarrow> Inr (Some (pyunicode T pf)))))"

definition sourceline :: "etree_api \<Rightarrow> heap \<Rightarrow> proxy_ref \<Rightarrow> py_error + int option" where
  "sourceline T h self =
     (case assertNode (objs h self) of
        Inl e \<Rightarrow> Inl e
      | Inr p \<Rightarrow>
          (let line = xmlGetLineNo T p
           in if line > 0 then Inr (Some line) else Inr None))"

text \<open>\<^verbatim>\<open>__getitem__\<close>: no assertion precedes the call of \<^verbatim>\<open>findChild\<close>.\<close>

definition getitem ::
  "etree_api \<Rightarrow> proxy_ref \<Rightarrow> int \<Rightarrow> heap \<Rightarrow> (py_error + proxy_ref) \<times> heap" where
  "getitem T self index h =
     (case findChild T (c_node (objs h self)) index of
        Inl e \<Rightarrow> (Inl e, h)
      | Inr None \<Rightarrow> (Inl (IndexError ''list index out of range''), h)
      | Inr (Some c) \<Rightarrow> newProxy (source_proxy (objs h self)) (Some c) h)"

text \<open>\<^verbatim>\<open>__getslice__\<close>, with its loop.\<close>

function getslice_loop ::
  "etree_api \<Rightarrow> proxy_ref \<Rightarrow> node_ptr option \<Rightarrow> int \<Rightarrow> int \<Rightarrow> proxy_ref list \<Rightarrow> heap \<Rightarrow>
   (py_error + proxy_ref list) \<times> heap" where
  "getslice_loop T self None c stop result h = (Inr result, h)"
| "getslice_loop T self (Some p) c stop result h =
     (if c < stop then
        (if isElement T (fst p) then
           (case newProxy (source_proxy (objs h self)) (Some p) h of
              (Inl e, h') \<Rightarrow> (Inl e, h')
            | (Inr el, h') \<Rightarrow> getslice_loop T self (c_next p) (c + 1) stop (result @ [el]) h')
         else getslice_loop T self (c_next p) c stop result h)
      else (Inr result, h))"
  by pat_completeness auto
termination
  by (relation "measure (\<lambda>(T, self, c_node, c, stop, result, h). ahead c_node)")
    (simp_all add: ahead_c_next)

definition getslice ::
  "etree_api \<Rightarrow> proxy_ref \<Rightarrow> int \<Rightarrow> int \<Rightarrow> heap \<Rightarrow> (py_error + proxy_ref list) \<times> heap" where
  "getslice T self start stop h =
     (case findChild T (c_node (objs h self)) start of
        Inl e \<Rightarrow> (Inl e, h)
      | Inr None \<Rightarrow> (Inr [], h)
      | Inr (Some c) \<Rightarrow> getslice_loop T self (Some c) start stop [] h)"

text \<open>\<^verbatim>\<open>__len__\<close>, with its loop.\<close>

function len_loop :: "etree_api \<Rightarrow> node_ptr option \<Rightarrow> int \<Rightarrow> int" where
  "len_loop T None c = c"
| "len_loop T (Some p) c = len_loop T (c_next p) (if isElement T (fst p) then c + 1 else c)"
  by pat_completeness auto
termination
  by (relation "measure (\<lambda>(T, c_node, c). ahead c_node)") (simp_all add: ahead_c_next)

definition len :: "etree_api \<Rightarrow> heap \<Rightarrow> proxy_ref \<Rightarrow> py_error + int" where
  "len T h self =
     (case assertNode (objs h self) of
        Inl e \<Rightarrow> Inl e
      | Inr p \<Rightarrow> Inr (len_loop T (c_children p) 0))"

definition nonzero :: "etree_api \<Rightarrow> heap \<Rightarrow> proxy_ref \<Rightarrow> py_error + bool" where
  "nonzero T h self =
     (case assertNode (objs h self) of
        Inl e \<Rightarrow> Inl e
      | Inr p \<Rightarrow>
          (case findChildBackwards T (Some p) 0 of
             Inl e \<Rightarrow> Inl e
           | Inr c \<Rightarrow> Inr (c \<noteq> None)))"

text \<open>\<^verbatim>\<open>getchildren\<close>, with its loop; \<^verbatim>\<open>__iter__\<close> iterates over its result.\<close>

function getchildren_loop ::
  "etree_api \<Rightarrow> proxy_ref \<Rightarrow> node_ptr option \<Rightarrow> proxy_ref list \<Rightarrow> heap \<Rightarrow>
   (py_error + proxy_ref list) \<times> heap" where
  "getchildren_loop T self None result h = (Inr result, h)"
| "getchildren_loop T self (Some p) result h =
     (if isElement T (fst p) then
        (case newProxy (source_proxy (objs h self)) (Some p) h of
           (Inl e, h') \<Rightarrow> (Inl e, h')
         | (Inr el, h') \<Rightarrow> getchildren_loop T self (c_next p) (result @ [el]) h')
      else getchildren_loop T self (c_next p) result h)"
  by pat_completeness auto
termination
  by (relation "measure (\<lambda>(T, self, c_node, result, h). ahead c_node)")
    (simp_all add: ahead_c_next)

definition getchildren ::
  "etree_api \<Rightarrow> proxy_ref \<Rightarrow> heap \<Rightarrow> (py_error + proxy_ref list) \<times> heap" where
  "getchildren T self h =
     (case assertNode (objs h self) of
        Inl e \<Rightarrow> (Inl e, h)
      | Inr p \<Rightarrow> getchildren_loop T self (c_children p) [] h)"

definition iter_proxy ::
  "etree_api \<Rightarrow> proxy_ref \<Rightarrow> heap \<Rightarrow> (py_error + proxy_ref list) \<times> heap" where
  "iter_proxy T self h = getchildren T self h"

text \<open>\<^verbatim>\<open>iterchildren\<close>: the list comprehension reads the tag of every child.\<close>

fun tag_filter :: "heap \<Rightarrow> string \<Rightarrow> proxy_ref list \<Rightarrow> py_error + proxy_ref list" where
  "tag_filter h tg [] = Inr []"
| "tag_filter h tg (el # els) =
     (case tag h el of
        Inl e \<Rightarrow> Inl e
      | Inr t \<Rightarrow>
          (case tag_filter h tg els of
             Inl e \<Rightarrow> Inl e
           | Inr kept \<Rightarrow> Inr (if t = tg then el # kept else kept)))"

definition iterchildren ::
  "etree_api \<Rightarrow> proxy_ref \<Rightarrow> string option \<Rightarrow> bool \<Rightarrow> heap \<Rightarrow>
   (py_error + proxy_ref list) \<times> heap" where
  "iterchildren T self tg reversed h =
     (case getchildren T self h of
        (Inl e, h') \<Rightarrow> (Inl e, h')
      | (Inr children', h') \<Rightarrow>
          (case (case tg of None \<Rightarrow> Inr children' | Some t \<Rightarrow> tag_filter h' t children') of
             Inl e \<Rightarrow> (Inl e, h')
           | Inr kept \<Rightarrow> (Inr (if reversed then rev kept else kept), h')))"

text \<open>\<^verbatim>\<open>get\<close> and \<^verbatim>\<open>_getAttributeValue\<close>: the value of the attribute, or the default.\<close>

datatype 'd attr_result = AttrValue string | Default 'd

definition getAttributeValue :: "node_ptr \<Rightarrow> string \<Rightarrow> 'd \<Rightarrow> py_error + 'd attr_result" where
  "getAttributeValue p key default' =
     (case getNsTag key of
        Inl e \<Rightarrow> Inl e
      | Inr (ns, tg) \<Rightarrow>
          (let c_tag = tg;
               c_href = (case ns of None \<Rightarrow> None | Some n \<Rightarrow> Some n)
           in case attributeValueFromNsName p c_href c_tag of
                None \<Rightarrow> Inr (Default default')
              | Some result \<Rightarrow> Inr (AttrValue result)))"

definition get :: "heap \<Rightarrow> proxy_ref \<Rightarrow> string \<Rightarrow> 'd \<Rightarrow> py_error + 'd attr_result" where
  "get h self key default' =
     (case assertNode (objs h self) of
        Inl e \<Rightarrow> Inl e
      | Inr p \<Rightarrow> getAttributeValue p key default')"

definition keys :: "heap \<Rightarrow> proxy_ref \<Rightarrow> py_error + py_attrs" where
  "keys h self =
     (case assertNode (objs h self) of
        Inl e \<Rightarrow> Inl e
      | Inr p \<Rightarrow> Inr (collectAttributes p 1))"

definition values_of_proxy :: "heap \<Rightarrow> proxy_ref \<Rightarrow> py_error + py_attrs" where
  "values_of_proxy h self =
     (case assertNode (objs h self) of
        Inl e \<Rightarrow> Inl e
      | Inr p \<Rightarrow> Inr (collectAttributes p 2))"

definition items :: "heap \<Rightarrow> proxy_ref \<Rightarrow> py_error + py_attrs" where
  "items h self =
     (case assertNode (objs h self) of
        Inl e \<Rightarrow> Inl e
      | Inr p \<Rightarrow> Inr (collectAttributes p 3))"

text \<open>\<^verbatim>\<open>getparent\<close>, \<^verbatim>\<open>getnext\<close>, \<^verbatim>\<open>getprevious\<close>: \<open>Inr None\<close> is Python's
  \<^verbatim>\<open>None\<close>.\<close>

definition found_proxy ::
  "(py_error + proxy_ref) \<times> heap \<Rightarrow> (py_error + proxy_ref option) \<times> heap" where
  "found_proxy r = (case r of (Inl e, h') \<Rightarrow> (Inl e, h') | (Inr el, h') \<Rightarrow> (Inr (Some el), h'))"

definition getparent ::
  "etree_api \<Rightarrow> proxy_ref \<Rightarrow> heap \<Rightarrow> (py_error + proxy_ref option) \<times> heap" where
  "getparent T self h =
     (case assertNode (objs h self) of
        Inl e \<Rightarrow> (Inl e, h)
      | Inr p \<Rightarrow>
          (case c_parent p of
             None \<Rightarrow> (Inr None, h)
           | Some c_parent' \<Rightarrow>
               if \<not> isElement T (fst c_parent') then (Inr None, h)
               else found_proxy (newProxy (source_proxy (objs h self)) (Some c_parent') h)))"

definition getnext ::
  "etree_api \<Rightarrow> proxy_ref \<Rightarrow> heap \<Rightarrow> (py_error + proxy_ref option) \<times> heap" where
  "getnext T self h =
     (case assertNode (objs h self) of
        Inl e \<Rightarrow> (Inl e, h)
      | Inr p \<Rightarrow>
          (case nextElement T p of
             Some c \<Rightarrow> found_proxy (newProxy (source_proxy (objs h self)) (Some c) h)
           | None \<Rightarrow> (Inr None, h)))"

definition getprevious ::
  "etree_api \<Rightarrow> proxy_ref \<Rightarrow> heap \<Rightarrow> (py_error + proxy_ref option) \<times> heap" where
  "getprevious T self h =
     (case assertNode (objs h self) of
        Inl e \<Rightarrow> (Inl e, h)
      | Inr p \<Rightarrow>
          (case previousElement T p of
             Some c \<Rightarrow> found_proxy (newProxy (source_proxy (objs h self)) (Some c) h)
           | None \<Rightarrow> (Inr None, h)))"

subsection \<open>PythonElementClassLookup\<close>

text \<open>
  A lookup object: its \<^verbatim>\<open>lookup\<close> method, which a subclass overrides with code of
  its own, and the fallback it was constructed with, as
  \<^verbatim>\<open>cetree.callLookupFallback\<close> runs it. The method gets the document and the root
  proxy; it may call the accessors, which changes the store, and it returns a class,
  \<^verbatim>\<open>None\<close> or raises. \<open>'d\<close> is the type of documents, \<open>'c\<close> of classes.
\<close>

record ('d, 'c) PythonElementClassLookup =
  lookup_method :: "'d \<Rightarrow> proxy_ref \<Rightarrow> heap \<Rightarrow> (py_error + 'c option) \<times> heap"
  callLookupFallback :: "'d \<Rightarrow> node_ptr option \<Rightarrow> py_error + 'c"

text \<open>The method \<^verbatim>\<open>lookup\<close> of the base class.\<close>

definition lookup :: "'d \<Rightarrow> proxy_ref \<Rightarrow> heap \<Rightarrow> (py_error + 'c option) \<times> heap" where
  "lookup doc element h = (Inr None, h)"

text \<open>
  \<^verbatim>\<open>_lookup_class\<close>. An exception of the call of \<^verbatim>\<open>lookup.lookup\<close> leaves the
  function at once: the statements after the call do not run.
\<close>

definition lookup_class ::
  "('d, 'c) PythonElementClassLookup \<Rightarrow> 'd \<Rightarrow> node_ptr option \<Rightarrow> heap \<Rightarrow>
   (py_error + 'c) \<times> heap" where
  "lookup_class state doc c_node' h =
     (case newProxy None c_node' h of
        (Inl e, h1) \<Rightarrow> (Inl e, h1)
      | (Inr proxy, h1) \<Rightarrow>
          (case lookup_method state doc proxy h1 of
             (Inl e, h2) \<Rightarrow> (Inl e, h2)
           | (Inr cls, h2) \<Rightarrow>
               (let h3 = freeProxies (Some proxy) h2
                in case cls of
                     Some c \<Rightarrow> (Inr c, h3)
                   | None \<Rightarrow> (callLookupFallback state doc c_node', h3))))"

text \<open>
  The classification the spec compares with, in its words: with no hook installed the
  classification of a node is pure fallback delegation, what the configured fallback
  lookup mechanism alone produces for the node.
\<close>

definition fallback_classification ::
  "('d, 'c) PythonElementClassLookup \<Rightarrow> 'd \<Rightarrow> node_ptr option \<Rightarrow> py_error + 'c" where
  "fallback_classification state doc c_node' = callLookupFallback state doc c_node'"

subsection \<open>A lookup method as a sequence of accessor calls\<close>

text \<open>
  What a \<^verbatim>\<open>lookup\<close> method can do to the store: it holds no reference to the private
  fields of a proxy, so it changes the store only through the accessors that create
  proxies. A call names its receiver and its arguments; the other accessors return a
  value and leave the store as it is.
\<close>

datatype accessor_call =
    GetItem proxy_ref int
  | GetSlice proxy_ref int int
  | Iter proxy_ref
  | IterChildren proxy_ref "string option" bool
  | GetChildren proxy_ref
  | GetParent proxy_ref
  | GetNext proxy_ref
  | GetPrevious proxy_ref

fun receiver :: "accessor_call \<Rightarrow> proxy_ref" where
  "receiver (GetItem self index) = self"
| "receiver (GetSlice self start stop) = self"
| "receiver (Iter self) = self"
| "receiver (IterChildren self tg reversed) = self"
| "receiver (GetChildren self) = self"
| "receiver (GetParent self) = self"
| "receiver (GetNext self) = self"
| "receiver (GetPrevious self) = self"

fun call_effect :: "etree_api \<Rightarrow> accessor_call \<Rightarrow> heap \<Rightarrow> heap" where
  "call_effect T (GetItem self index) h = snd (getitem T self index h)"
| "call_effect T (GetSlice self start stop) h = snd (getslice T self start stop h)"
| "call_effect T (Iter self) h = snd (iter_proxy T self h)"
| "call_effect T (IterChildren self tg reversed) h = snd (iterchildren T self tg reversed h)"
| "call_effect T (GetChildren self) h = snd (getchildren T self h)"
| "call_effect T (GetParent self) h = snd (getparent T self h)"
| "call_effect T (GetNext self) h = snd (getnext T self h)"
| "call_effect T (GetPrevious self) h = snd (getprevious T self h)"

text \<open>The calls run in order; a call that raises leaves the store it reached, and the
  method may go on.\<close>

fun run_calls :: "etree_api \<Rightarrow> accessor_call list \<Rightarrow> heap \<Rightarrow> heap" where
  "run_calls T [] h = h"
| "run_calls T (c # cs) h = run_calls T cs (call_effect T c h)"

text \<open>A lookup method that makes the given calls and then returns or raises as given.\<close>

definition scripted_lookup ::
  "etree_api \<Rightarrow> accessor_call list \<Rightarrow> py_error + 'c option \<Rightarrow>
   'd \<Rightarrow> proxy_ref \<Rightarrow> heap \<Rightarrow> (py_error + 'c option) \<times> heap" where
  "scripted_lookup T calls outcome doc element h = (outcome, run_calls T calls h)"

text \<open>
  The calls of one pass: every receiver is a proxy of the pass, that is, the root proxy
  or a proxy created after it, and it exists when the call is made.
\<close>

fun in_scope :: "etree_api \<Rightarrow> proxy_ref \<Rightarrow> accessor_call list \<Rightarrow> heap \<Rightarrow> bool" where
  "in_scope T root [] h = True"
| "in_scope T root (c # cs) h =
     (root \<le> receiver c \<and> receiver c < nobjs h \<and> in_scope T root cs (call_effect T c h))"

text \<open>A proxy is recorded in the registry of a root proxy.\<close>

definition registered :: "heap \<Rightarrow> proxy_ref \<Rightarrow> proxy_ref \<Rightarrow> bool" where
  "registered h root r =
     (case dependent_proxies (objs h root) of None \<Rightarrow> False | Some deps \<Rightarrow> r \<in> set deps)"

text \<open>The graph of a root proxy: every proxy from the root on is recorded in the
  registry of the root and has the root as its source.\<close>

definition graph :: "heap \<Rightarrow> proxy_ref \<Rightarrow> bool" where
  "graph h root \<longleftrightarrow>
     root < nobjs h \<and>
     (\<forall>r. root \<le> r \<and> r < nobjs h \<longrightarrow>
        registered h root r \<and> source_proxy (objs h r) = Some root)"

subsection \<open>Attributes of a parsed element\<close>


subsection \<open>A sample document\<close>

text \<open>
  A root element with the attributes \<^verbatim>\<open>a="1"\<close> and \<^verbatim>\<open>{ns}b="2"\<close> and the children
  \<^verbatim>\<open>e0\<close> (an element), \<^verbatim>\<open>c1\<close> (a text node) and \<^verbatim>\<open>e2\<close> (an element), under a
  document node; \<^verbatim>\<open>_isElement\<close> holds of the element nodes. \<open>root_heap\<close> is the store
  with one root proxy, number 0, over the root element.
\<close>

definition sample_api :: etree_api where
  "sample_api =
     \<lparr>isElement = (\<lambda>n. node_type (info n) = XML_ELEMENT_NODE), textOf = (\<lambda>_. None),
      tailOf = (\<lambda>_. None), pyunicode = (\<lambda>s. s), xmlGetLineNo = (\<lambda>_. 0)\<rparr>"

definition leaf :: "xmlElementType \<Rightarrow> string \<Rightarrow> xmlNode" where
  "leaf t name = XmlNode \<lparr>node_type = t, node_name = name, node_ns = None, properties = []\<rparr> []"

definition sample_root :: node_ptr where
  "sample_root =
     (XmlNode
        \<lparr>node_type = XML_ELEMENT_NODE, node_name = ''root'', node_ns = None,
         properties = [\<lparr>attr_href = None, attr_name = ''a'', attr_value = ''1''\<rparr>,
                       \<lparr>attr_href = Some ''ns'', attr_name = ''b'', attr_value = ''2''\<rparr>]\<rparr>
        [leaf XML_ELEMENT_NODE ''e0'', leaf XML_TEXT_NODE ''c1'', leaf XML_ELEMENT_NODE ''e2''],
      [Step [] \<lparr>node_type = XML_DOCUMENT_NODE, node_name = '''', node_ns = None,
                properties = []\<rparr> []])"

definition empty_heap :: heap where
  "empty_heap =
     \<lparr>objs = (\<lambda>_. \<lparr>c_node = None, source_proxy = None, dependent_proxies = None\<rparr>), nobjs = 0\<rparr>"

definition root_heap :: heap where
  "root_heap = snd (newProxy None (Some sample_root) empty_heap)"



text \<open>The name of the node a proxy points at.\<close>

definition pointed_name :: "heap \<Rightarrow> proxy_ref \<Rightarrow> string option" where
  "pointed_name h r = map_option (\<lambda>p. node_name (info (fst p))) (c_node (objs h r))"

text \<open>Eight calls of a lookup method on the sample document; they create the proxies 1
  to 10, and the last one raises \<open>IndexError\<close>.\<close>

definition sample_calls :: "accessor_call list" where
  "sample_calls =
     [GetChildren 0, GetNext 1, GetParent 2, GetItem 0 1, GetSlice 0 0 5,
      IterChildren 0 (Some ''e2'') True, GetPrevious 2, GetItem 1 0]"

text \<open>The store after a pass of these calls and its teardown.\<close>

definition torn_down :: heap where
  "torn_down = freeProxies (Some 0) (run_calls sample_api sample_calls root_heap)"

lemmas sample_defs =
  sample_api_def leaf_def sample_root_def empty_heap_def root_heap_def pointed_name_def

lemmas heap_defs = newProxy_def NEW_PROXY_def update_proxy_def freeProxies_def

lemmas tree_defs =
  c_children_def c_next_def c_prev_def c_parent_def c_last_def element_children_def
  element_children_backwards_def findChild_def findChildBackwards_def nth_or_NULL_def
  nextElement_def previousElement_def

lemmas accessor_defs =
  getitem_def getslice_def getchildren_def iter_proxy_def iterchildren_def getparent_def
  getnext_def getprevious_def found_proxy_def assertNode_def tag_def namespacedName_def
  namespacedNameFromNsName_def

section \<open>Properties of schematron.pxi\<close>

subsection \<open>The verdict of a validation call\<close>

lemma Schematron_call_evaluated:
  assumes "documentOrRaise L etree = Inr doc"
    and "rootNodeOrRaise L etree = Inr root_node"
    and "xmlSchematronNewValidCtxt L c_schema (valid_options L) = Some valid_ctxt"
  shows "fst (Schematron_call L c_schema etree w) =
         verdict (xmlSchematronValidateDoc L valid_ctxt (fakeRootDoc L doc root_node))"
  using assms by (simp add: Schematron_call_def Let_def)

text \<open>
  C1, as the spec states it, fails: the call raises for the return code \<open>-1\<close> only, and
  the negative code \<open>-2\<close> gives \<open>False\<close>.
\<close>

theorem Schematron_call_negative_code_counterexample:
  "sint (- 2 :: c_int) < 0 \<and>
   fst (Schematron_call (sample_libxml True (Some 40) (- 2)) (Some 30) () idle) = Inr False"
  by (simp add: Schematron_call_def sample_libxml_def verdict_def valid_options_def Let_def)

text \<open>
  C1, amended: when the validation context was created and the native evaluation ran,
  \<^verbatim>\<open>Schematron.__call__\<close> returns true for the return code 0, false for every
  positive code, and raises \<open>SchematronValidateError\<close> for the code \<open>-1\<close>; for a
  negative code other than \<open>-1\<close> it returns false.
\<close>

theorem Schematron_call_verdict:
  assumes "documentOrRaise L etree = Inr doc"
    and "rootNodeOrRaise L etree = Inr root_node"
    and "xmlSchematronNewValidCtxt L c_schema (valid_options L) = Some valid_ctxt"
    and "ret = xmlSchematronValidateDoc L valid_ctxt (fakeRootDoc L doc root_node)"
  shows "fst (Schematron_call L c_schema etree w) =
         (if sint ret = 0 then Inr True
          else if 0 < sint ret then Inr False
          else if sint ret = - 1
            then Inl (SchematronValidateError ''Internal error in Schematron validation'')
          else Inr False)"
proof -
  have zero: "sint ret = 0 \<longleftrightarrow> ret = 0"
    by (simp add: signed_eq_0_iff)
  have minus_one: "sint ret = - 1 \<longleftrightarrow> ret = - 1"
    by (metis sint_n1 signed_word_eqI)
  have "fst (Schematron_call L c_schema etree w) = verdict ret"
    using assms by (simp add: Schematron_call_evaluated)
  then show ?thesis
    using zero minus_one by (auto simp add: verdict_def)
qed

theorem Schematron_call_verdict_witness:
  "fst (Schematron_call (sample_libxml True (Some 40) 0) (Some 30) () idle) = Inr True \<and>
   fst (Schematron_call (sample_libxml True (Some 40) 3) (Some 30) () idle) = Inr False \<and>
   fst (Schematron_call (sample_libxml True (Some 40) (- 1)) (Some 30) () idle) =
     Inl (SchematronValidateError ''Internal error in Schematron validation'') \<and>
   fst (Schematron_call (sample_libxml True (Some 40) (- 7)) (Some 30) () idle) = Inr False"
proof -
  have doc: "documentOrRaise (sample_libxml True (Some 40) r) () = Inr 10"
    and root_node: "rootNodeOrRaise (sample_libxml True (Some 40) r) () = Inr 11"
    and ctxt: "xmlSchematronNewValidCtxt (sample_libxml True (Some 40) r) (Some 30)
                 (valid_options (sample_libxml True (Some 40) r)) = Some 40"
    and ret: "r = xmlSchematronValidateDoc (sample_libxml True (Some 40) r) 40
                (fakeRootDoc (sample_libxml True (Some 40) r) 10 11)" for r
    by (simp_all add: sample_libxml_def)
  show ?thesis
    using Schematron_call_verdict [OF doc root_node ctxt ret, of 0 idle]
      Schematron_call_verdict [OF doc root_node ctxt ret, of 3 idle]
      Schematron_call_verdict [OF doc root_node ctxt ret, of "- 1" idle]
      Schematron_call_verdict [OF doc root_node ctxt ret, of "- 7" idle]
    by simp
qed

subsection \<open>Release of the validation session\<close>



subsection \<open>The source of the schema\<close>

text \<open>
  C8: when a tree is given, whatever is given as file, the outcome of
  \<^verbatim>\<open>Schematron.__init__\<close> is the outcome of compiling the tree: in a build with
  Schematron support, an exception of the two helpers that read the tree,
  \<open>MemoryError\<close> when no parser context comes back for the copy of the tree,
  \<open>SchematronParseError\<close> when the copy is not a schema, and the schema compiled from
  the copy otherwise. The file is not read and no exception is raised for its being
  given: the outcome, resources included, is that of the call with the tree alone.
\<close>

theorem Schematron_init_tree_first:
  "fst (Schematron_init L (Some et) file w) =
     (if \<not> ENABLE_SCHEMATRON L
      then Inl (SchematronError ''lxml.etree was compiled without Schematron support.'')
      else
        (case documentOrRaise L et of
           Inl e \<Rightarrow> Inl e
         | Inr doc \<Rightarrow>
             (case rootNodeOrRaise L et of
                Inl e \<Rightarrow> Inl e
              | Inr root_node \<Rightarrow>
                  (case xmlSchematronNewDocParserCtxt L (copyDocRoot L doc root_node) of
                     None \<Rightarrow> Inl MemoryError
                   | Some parser_ctxt \<Rightarrow>
                       (case xmlSchematronParse L parser_ctxt of
                          None \<Rightarrow>
                            Inl (SchematronParseError
                                  ''Document is not a valid Schematron schema'')
                        | Some s \<Rightarrow> Inr s))))) \<and>
   Schematron_init L (Some et) file w = Schematron_init L (Some et) None w"
  by (simp add: Schematron_init_def new_parser_ctxt_def Let_def
      split: sum.split option.split)

theorem Schematron_init_tree_first_witness:
  "Schematron_init bad_file_libxml (Some ()) (Some ()) idle =
     (Inr 30, idle\<lparr>copied_docs := 1, schemas := 1\<rparr>) \<and>
   Schematron_init bad_file_libxml (Some ()) None idle =
     (Inr 30, idle\<lparr>copied_docs := 1, schemas := 1\<rparr>) \<and>
   fst (Schematron_init bad_file_libxml None (Some ()) idle) = Inl (Raised ''TypeError'')"
proof -
  have alone: "Schematron_init bad_file_libxml (Some ()) None idle =
      (Inr 30, idle\<lparr>copied_docs := 1, schemas := 1\<rparr>)"
    by (simp add: Schematron_init_def new_parser_ctxt_def bad_file_libxml_def sample_libxml_def
        idle_def xmlSchematronFreeParserCtxt_def Let_def)
  have by_file: "fst (Schematron_init bad_file_libxml None (Some ()) idle) =
      Inl (Raised ''TypeError'')"
    by (simp add: Schematron_init_def new_parser_ctxt_def bad_file_libxml_def sample_libxml_def
        Let_def)
  show ?thesis
    using Schematron_init_tree_first [of bad_file_libxml "()" "Some ()" idle] alone by_file
    by simp
qed

text \<open>
  C9, as the spec states it, fails: in a build without Schematron support the
  constructor raises \<open>SchematronError\<close>, which is not a \<open>SchematronParseError\<close>, also when
  neither a tree nor a file is given.
\<close>

theorem Schematron_init_disabled_counterexample:
  "Schematron_init (sample_libxml False (Some 40) 0) None None idle =
     (Inl (SchematronError ''lxml.etree was compiled without Schematron support.''), idle)"
  by (simp add: Schematron_init_def sample_libxml_def)

text \<open>
  C9, amended: in a build with Schematron support, compiling with neither a tree nor a
  file raises \<open>SchematronParseError\<close>, and nothing was allocated: the resources are
  those before the call.
\<close>

theorem Schematron_init_no_source:
  assumes "ENABLE_SCHEMATRON L"
  shows "Schematron_init L None None w = (Inl (SchematronParseError ''No tree or file given''), w)"
  using assms by (simp add: Schematron_init_def new_parser_ctxt_def)

theorem Schematron_init_no_source_witness:
  "ENABLE_SCHEMATRON (sample_libxml True (Some 40) 0) \<and>
   Schematron_init (sample_libxml True (Some 40) 0) None None idle =
     (Inl (SchematronParseError ''No tree or file given''), idle)"
proof -
  have enabled: "ENABLE_SCHEMATRON (sample_libxml True (Some 40) 0)"
    by (simp add: sample_libxml_def)
  show ?thesis
    using enabled Schematron_init_no_source [OF enabled, of idle] by simp
qed

section \<open>Properties of lxml.pyclasslookup.pyx\<close>

subsection \<open>Creation of proxies\<close>

lemma newProxy_None:
  "newProxy None c h =
     (Inr (nobjs h),
      \<lparr>objs = (objs h)
         (nobjs h := \<lparr>c_node = c, source_proxy = Some (nobjs h),
                      dependent_proxies = Some [nobjs h]\<rparr>),
       nobjs = Suc (nobjs h)\<rparr>)"
  by (simp add: newProxy_def NEW_PROXY_def update_proxy_def Let_def)

lemma newProxy_Some:
  assumes "sp < nobjs h" and "dependent_proxies (objs h sp) = Some deps"
  shows "newProxy (Some sp) c h =
     (Inr (nobjs h),
      \<lparr>objs = (objs h)
         (nobjs h := \<lparr>c_node = c, source_proxy = Some sp, dependent_proxies = None\<rparr>,
          sp := (objs h sp)\<lparr>dependent_proxies := Some (deps @ [nobjs h])\<rparr>),
       nobjs = Suc (nobjs h)\<rparr>)"
  using assms by (simp add: newProxy_def NEW_PROXY_def update_proxy_def Let_def)

lemma lookup_class_unfold:
  "lookup_class state doc c h =
     (case lookup_method state doc (nobjs h) (snd (newProxy None c h)) of
        (Inl e, h2) \<Rightarrow> (Inl e, h2)
      | (Inr cls, h2) \<Rightarrow>
          (let h3 = freeProxies (Some (nobjs h)) h2
           in case cls of
                Some k \<Rightarrow> (Inr k, h3)
              | None \<Rightarrow> (callLookupFallback state doc c, h3)))"
  by (simp add: lookup_class_def newProxy_None)

lemma root_heap_proxy:
  "c_node (objs root_heap 0) = Some sample_root"
  "source_proxy (objs root_heap 0) = Some 0"
  "dependent_proxies (objs root_heap 0) = Some [0]"
  "nobjs root_heap = 1"
  by (simp_all add: root_heap_def empty_heap_def newProxy_None)

subsection \<open>Access after the teardown\<close>

text \<open>The accessors that call \<^verbatim>\<open>_assertNode\<close> first raise \<open>AssertionError\<close> on a proxy
  whose node pointer is NULL.\<close>

lemma asserting_accessors_on_invalidated_proxy:
  assumes "c_node (objs h self) = None"
  shows "tag h self = Inl (AssertionError ''Proxy invalidated!'')"
    and "text_of_proxy T h self = Inl (AssertionError ''Proxy invalidated!'')"
    and "tail T h self = Inl (AssertionError ''Proxy invalidated!'')"
    and "attrib h self = Inl (AssertionError ''Proxy invalidated!'')"
    and "prefix_of_proxy T h self = Inl (AssertionError ''Proxy invalidated!'')"
    and "sourceline T h self = Inl (AssertionError ''Proxy invalidated!'')"
    and "len T h self = Inl (AssertionError ''Proxy invalidated!'')"
    and "nonzero T h self = Inl (AssertionError ''Proxy invalidated!'')"
    and "iter_proxy T self h = (Inl (AssertionError ''Proxy invalidated!''), h)"
    and "iterchildren T self tg reversed h = (Inl (AssertionError ''Proxy invalidated!''), h)"
    and "getchildren T self h = (Inl (AssertionError ''Proxy invalidated!''), h)"
    and "get h self key d = Inl (AssertionError ''Proxy invalidated!'')"
    and "keys h self = Inl (AssertionError ''Proxy invalidated!'')"
    and "values_of_proxy h self = Inl (AssertionError ''Proxy invalidated!'')"
    and "items h self = Inl (AssertionError ''Proxy invalidated!'')"
    and "getparent T self h = (Inl (AssertionError ''Proxy invalidated!''), h)"
    and "getnext T self h = (Inl (AssertionError ''Proxy invalidated!''), h)"
    and "getprevious T self h = (Inl (AssertionError ''Proxy invalidated!''), h)"
  using assms
  by (simp_all add: assertNode_def tag_def text_of_proxy_def tail_def attrib_def
      prefix_of_proxy_def sourceline_def len_def nonzero_def iter_proxy_def iterchildren_def
      getchildren_def get_def keys_def values_of_proxy_def items_def getparent_def getnext_def
      getprevious_def)

lemma torn_down_root: "c_node (objs torn_down 0) = None"
  by (simp add: torn_down_def sample_calls_def sample_defs heap_defs tree_defs accessor_defs)

text \<open>
  C2 does not hold of the code: \<^verbatim>\<open>__getitem__\<close> and \<^verbatim>\<open>__getslice__\<close> do not call
  \<^verbatim>\<open>_assertNode\<close>. On a proxy whose node pointer was nulled by the teardown they hand
  the NULL pointer to \<^verbatim>\<open>cetree.findChild\<close>, which reads through it: no
  \<open>AssertionError\<close> is raised, for any index and any range.
\<close>

theorem unchecked_index_on_invalidated_proxy:
  assumes "c_node (objs h self) = None"
  shows "getitem T self index h = (Inl NullDereference, h) \<and>
         getslice T self start stop h = (Inl NullDereference, h)"
  using assms by (simp add: getitem_def getslice_def findChild_def findChildBackwards_def)

theorem unchecked_index_on_invalidated_proxy_witness:
  "c_node (objs torn_down 0) = None \<and>
   fst (getitem sample_api 0 0 torn_down) = Inl NullDereference \<and>
   fst (getslice sample_api 0 0 1 torn_down) = Inl NullDereference \<and>
   tag torn_down 0 = Inl (AssertionError ''Proxy invalidated!'')"
  using unchecked_index_on_invalidated_proxy [OF torn_down_root, of sample_api 0 0 1]
    asserting_accessors_on_invalidated_proxy(1) [OF torn_down_root] torn_down_root
  by simp

subsection \<open>The dispatcher\<close>

text \<open>When the \<^verbatim>\<open>lookup\<close> method returns, the graph of the root proxy is torn down.\<close>

lemma lookup_class_return_tears_down:
  assumes "lookup_method state doc (nobjs h) (snd (newProxy None c h)) = (Inr cls, h2)"
  shows "snd (lookup_class state doc c h) = freeProxies (Some (nobjs h)) h2"
  using assms by (simp add: lookup_class_unfold Let_def split: option.split)

text \<open>
  C3 does not hold of the code: when the \<^verbatim>\<open>lookup\<close> method raises,
  \<^verbatim>\<open>_lookup_class\<close> raises with the store as the method left it. \<^verbatim>\<open>_freeProxies\<close>
  has not run, and the proxies of the pass keep their node pointers.
\<close>

theorem lookup_class_raise_skips_teardown:
  assumes "lookup_method state doc (nobjs h) (snd (newProxy None c h)) = (Inl e, h2)"
  shows "lookup_class state doc c h = (Inl e, h2)"
  using assms by (simp add: lookup_class_unfold)

theorem lookup_class_raise_skips_teardown_witness:
  "fst (lookup_class
         \<lparr>lookup_method = scripted_lookup sample_api [GetChildren 0] (Inl (Raised ''KeyError'')),
          callLookupFallback = (\<lambda>_ _. Inr ''Fallback'')\<rparr> () (Some sample_root) empty_heap)
     = Inl (Raised ''KeyError'') \<and>
   map (pointed_name (snd (lookup_class
         \<lparr>lookup_method = scripted_lookup sample_api [GetChildren 0] (Inl (Raised ''KeyError'')),
          callLookupFallback = (\<lambda>_ _. Inr ''Fallback'')\<rparr> () (Some sample_root) empty_heap)))
     [0, 1, 2] = [Some ''root'', Some ''e0'', Some ''e2'']"
proof -
  have raised:
    "lookup_method
       \<lparr>lookup_method = scripted_lookup sample_api [GetChildren 0] (Inl (Raised ''KeyError'')),
        callLookupFallback = (\<lambda>_ _. Inr ''Fallback'')\<rparr> () (nobjs empty_heap)
       (snd (newProxy None (Some sample_root) empty_heap)) =
     (Inl (Raised ''KeyError''), run_calls sample_api [GetChildren 0] root_heap)"
    by (simp add: scripted_lookup_def root_heap_def)
  have "map (pointed_name (run_calls sample_api [GetChildren 0] root_heap)) [0, 1, 2] =
          [Some ''root'', Some ''e0'', Some ''e2'']"
    by (simp add: sample_defs heap_defs tree_defs accessor_defs)
  then show ?thesis
    using lookup_class_raise_skips_teardown [OF raised] by simp
qed

text \<open>
  C5: when the \<^verbatim>\<open>lookup\<close> method of the hook returns \<^verbatim>\<open>None\<close> for a node,
  \<^verbatim>\<open>_lookup_class\<close> returns what the fallback gives for that node, which is also what
  it returns with the \<^verbatim>\<open>lookup\<close> method of the base class, that is, with no hook.
\<close>

theorem lookup_class_None_is_fallback:
  assumes "fst (lookup_method state doc (nobjs h) (snd (newProxy None c h))) = Inr None"
  shows "fst (lookup_class state doc c h) = fallback_classification state doc c \<and>
         fst (lookup_class state doc c h) =
           fst (lookup_class (state\<lparr>lookup_method := lookup\<rparr>) doc c h)"
proof -
  obtain h2 where "lookup_method state doc (nobjs h) (snd (newProxy None c h)) = (Inr None, h2)"
    using assms by (metis prod.collapse)
  then show ?thesis
    by (simp add: lookup_class_unfold lookup_def fallback_classification_def)
qed

theorem lookup_class_None_is_fallback_witness:
  "fst (lookup_class
         \<lparr>lookup_method = scripted_lookup sample_api sample_calls (Inr None),
          callLookupFallback = (\<lambda>_ _. Inr ''Fallback'')\<rparr> () (Some sample_root) empty_heap)
     = Inr ''Fallback''"
proof -
  have none:
    "fst (lookup_method
       \<lparr>lookup_method = scripted_lookup sample_api sample_calls (Inr None),
        callLookupFallback = (\<lambda>_ _. Inr ''Fallback'')\<rparr> () (nobjs empty_heap)
       (snd (newProxy None (Some sample_root) empty_heap))) = Inr None"
    by (simp add: scripted_lookup_def)
  show ?thesis
    using lookup_class_None_is_fallback [OF none] by (simp add: fallback_classification_def)
qed

subsection \<open>Indexed child access\<close>

lemma map_fst_siblings_from:
  "map fst (siblings_from (Some (n, Step ls a rs # up))) = n # rs"
  by (induction rs arbitrary: n ls) (simp_all add: c_next_def)

lemma map_fst_child_pointers: "map fst (siblings_from (c_children p)) = children (fst p)"
  by (cases "children (fst p)")
    (simp_all add: c_children_def map_fst_siblings_from del: siblings_from.simps(2))

lemma map_fst_element_children:
  "map fst (element_children T p) = filter (isElement T) (children (fst p))"
  by (simp add: element_children_def filter_map comp_def flip: map_fst_child_pointers)

text \<open>
  C6: on a valid proxy of a graph, \<^verbatim>\<open>__getitem__\<close> with an index \<open>N \<ge> 0\<close> returns a
  new proxy over the Nth of the children that are elements, the other children being
  skipped, and raises \<open>IndexError\<close> when there are not more than N such children.
\<close>

theorem getitem_nth_element_child:
  assumes "c_node (objs h self) = Some p"
    and "source_proxy (objs h self) = Some sp"
    and "sp < nobjs h"
    and "dependent_proxies (objs h sp) = Some deps"
    and "0 \<le> index"
  shows "if index < int (length (filter (isElement T) (children (fst p))))
         then fst (getitem T self index h) = Inr (nobjs h) \<and>
              c_node (objs (snd (getitem T self index h)) (nobjs h)) =
                Some (element_children T p ! nat index) \<and>
              fst (element_children T p ! nat index) =
                filter (isElement T) (children (fst p)) ! nat index
         else getitem T self index h = (Inl (IndexError ''list index out of range''), h)"
proof -
  have len: "length (element_children T p) = length (filter (isElement T) (children (fst p)))"
    by (metis length_map map_fst_element_children)
  show ?thesis
  proof (cases "index < int (length (filter (isElement T) (children (fst p))))")
    case True
    then have found: "findChild T (Some p) index = Inr (Some (element_children T p ! nat index))"
      using assms(5) len by (simp add: findChild_def nth_or_NULL_def)
    have "fst (element_children T p ! nat index) =
            filter (isElement T) (children (fst p)) ! nat index"
      using True assms(5) len by (metis map_fst_element_children nat_less_iff nth_map)
    then show ?thesis
      using True assms found by (simp add: getitem_def newProxy_Some)
  next
    case False
    then have "findChild T (Some p) index = Inr None"
      using assms(5) len by (simp add: findChild_def nth_or_NULL_def)
    then show ?thesis
      using False assms by (simp add: getitem_def)
  qed
qed

theorem getitem_nth_element_child_witness:
  "fst (getitem sample_api 0 0 root_heap) = Inr 1 \<and>
   pointed_name (snd (getitem sample_api 0 0 root_heap)) 1 = Some ''e0'' \<and>
   fst (getitem sample_api 0 1 root_heap) = Inr 1 \<and>
   pointed_name (snd (getitem sample_api 0 1 root_heap)) 1 = Some ''e2'' \<and>
   fst (getitem sample_api 0 2 root_heap) = Inl (IndexError ''list index out of range'')"
proof -
  have live: "0 < nobjs root_heap"
    by (simp add: root_heap_proxy)
  have elements: "filter (isElement sample_api) (children (fst sample_root)) =
      [leaf XML_ELEMENT_NODE ''e0'', leaf XML_ELEMENT_NODE ''e2'']"
    by (simp add: sample_api_def sample_root_def leaf_def)
  show ?thesis
    using getitem_nth_element_child
        [OF root_heap_proxy(1) root_heap_proxy(2) live root_heap_proxy(3), of 0 sample_api]
      getitem_nth_element_child
        [OF root_heap_proxy(1) root_heap_proxy(2) live root_heap_proxy(3), of 1 sample_api]
      getitem_nth_element_child
        [OF root_heap_proxy(1) root_heap_proxy(2) live root_heap_proxy(3), of 2 sample_api]
    by (simp add: elements root_heap_proxy(4) pointed_name_def leaf_def)
qed

subsection \<open>The attribute accessors\<close>










subsection \<open>The registry of a graph and its teardown\<close>

lemma graph_newProxy_None: "graph (snd (newProxy None c h)) (nobjs h)"
  by (auto simp add: newProxy_None graph_def registered_def)

lemma graph_newProxy:
  assumes "graph h root"
  shows "\<exists>h'. newProxy (Some root) c h = (Inr (nobjs h), h') \<and> graph h' root \<and>
              nobjs h' = Suc (nobjs h)"
proof -
  from assms obtain deps where deps: "dependent_proxies (objs h root) = Some deps"
    and root: "root < nobjs h"
    by (auto simp add: graph_def registered_def split: option.splits)
  show ?thesis
    using assms root deps
    by (auto simp add: newProxy_Some [OF root deps] graph_def registered_def
        split: option.splits)
qed

lemma graph_newProxy_snd:
  assumes "graph h root"
  shows "graph (snd (newProxy (Some root) c h)) root \<and>
         nobjs h \<le> nobjs (snd (newProxy (Some root) c h))"
  using graph_newProxy [OF assms, of c] by auto

lemma graph_found_proxy:
  assumes "graph h root"
  shows "graph (snd (found_proxy (newProxy (Some root) c h))) root \<and>
         nobjs h \<le> nobjs (snd (found_proxy (newProxy (Some root) c h)))"
  using graph_newProxy [OF assms, of c] by (auto simp add: found_proxy_def)

text \<open>The two loops keep the graph: by induction along the walk over the siblings.\<close>

lemma graph_getchildren_loop:
  assumes "graph h root" and "root \<le> self" and "self < nobjs h"
  shows "graph (snd (getchildren_loop T self cn res h)) root \<and>
         nobjs h \<le> nobjs (snd (getchildren_loop T self cn res h))"
  using assms
proof (induction T self cn res h rule: getchildren_loop.induct)
  case (1 T self result h)
  then show ?case by simp
next
  case (2 T self p result h)
  show ?case
  proof (cases "isElement T (fst p)")
    case False
    with 2 show ?thesis by simp
  next
    case True
    from "2.prems" have sp: "source_proxy (objs h self) = Some root"
      by (simp add: graph_def)
    from graph_newProxy [OF "2.prems"(1), of "Some p"] obtain h'
      where h': "newProxy (Some root) (Some p) h = (Inr (nobjs h), h')" "graph h' root"
        "nobjs h' = Suc (nobjs h)"
      by blast
    have "graph (snd (getchildren_loop T self (c_next p) (result @ [nobjs h]) h')) root \<and>
          nobjs h' \<le> nobjs (snd (getchildren_loop T self (c_next p) (result @ [nobjs h]) h'))"
      using "2.IH"(1) [OF True _ _ h'(2)] h' sp "2.prems" by simp
    then show ?thesis
      using True sp h' by simp
  qed
qed

lemma graph_getslice_loop:
  assumes "graph h root" and "root \<le> self" and "self < nobjs h"
  shows "graph (snd (getslice_loop T self cn c stop res h)) root \<and>
         nobjs h \<le> nobjs (snd (getslice_loop T self cn c stop res h))"
  using assms
proof (induction T self cn c stop res h rule: getslice_loop.induct)
  case (1 T self c stop result h)
  then show ?case by simp
next
  case (2 T self p c stop result h)
  show ?case
  proof (cases "c < stop")
    case False
    with 2 show ?thesis by simp
  next
    case less: True
    show ?thesis
    proof (cases "isElement T (fst p)")
      case False
      with 2 less show ?thesis by simp
    next
      case True
      from "2.prems" have sp: "source_proxy (objs h self) = Some root"
        by (simp add: graph_def)
      from graph_newProxy [OF "2.prems"(1), of "Some p"] obtain h'
        where h': "newProxy (Some root) (Some p) h = (Inr (nobjs h), h')" "graph h' root"
          "nobjs h' = Suc (nobjs h)"
        by blast
      have "graph (snd (getslice_loop T self (c_next p) (c + 1) stop (result @ [nobjs h]) h'))
              root \<and>
            nobjs h' \<le>
              nobjs (snd (getslice_loop T self (c_next p) (c + 1) stop (result @ [nobjs h]) h'))"
        using "2.IH"(1) [OF less True _ _ h'(2)] h' sp "2.prems" by simp
      then show ?thesis
        using less True sp h' by simp
    qed
  qed
qed

lemma graph_getchildren:
  assumes "graph h root" and "root \<le> self" and "self < nobjs h"
  shows "graph (snd (getchildren T self h)) root \<and> nobjs h \<le> nobjs (snd (getchildren T self h))"
  using assms graph_getchildren_loop [OF assms]
  by (simp add: getchildren_def del: getchildren_loop.simps split: sum.split)

text \<open>Every accessor, called on a proxy of the graph, keeps the graph.\<close>

lemma graph_call_effect:
  assumes "graph h root" and "root \<le> receiver call" and "receiver call < nobjs h"
  shows "graph (call_effect T call h) root \<and> nobjs h \<le> nobjs (call_effect T call h)"
proof -
  have sp: "source_proxy (objs h (receiver call)) = Some root"
    using assms by (simp add: graph_def)
  show ?thesis
  proof (cases call)
    case (GetItem self index)
    then show ?thesis
      using assms sp graph_newProxy_snd [OF assms(1)]
      by (simp add: getitem_def split: sum.split option.split)
  next
    case (GetSlice self start stop)
    then show ?thesis
      using assms graph_getslice_loop [of h root self]
      by (simp add: getslice_def del: getslice_loop.simps split: sum.split option.split)
  next
    case (Iter self)
    then show ?thesis
      using assms graph_getchildren [of h root self T] by (simp add: iter_proxy_def)
  next
    case (IterChildren self tg reversed)
    then show ?thesis
      using assms graph_getchildren [of h root self T]
      by (auto simp add: iterchildren_def split: prod.split sum.split option.split)
  next
    case (GetChildren self)
    then show ?thesis
      using assms graph_getchildren [of h root self T] by simp
  next
    case (GetParent self)
    then show ?thesis
      using assms sp graph_found_proxy [OF assms(1)]
      by (simp add: getparent_def split: sum.split option.split)
  next
    case (GetNext self)
    then show ?thesis
      using assms sp graph_found_proxy [OF assms(1)]
      by (simp add: getnext_def split: sum.split option.split)
  next
    case (GetPrevious self)
    then show ?thesis
      using assms sp graph_found_proxy [OF assms(1)]
      by (simp add: getprevious_def split: sum.split option.split)
  qed
qed

lemma graph_run_calls:
  assumes "graph h root" and "in_scope T root calls h"
  shows "graph (run_calls T calls h) root"
  using assms
proof (induction calls arbitrary: h)
  case Nil
  then show ?case by simp
next
  case (Cons call calls)
  then show ?case
    using graph_call_effect [of h root call T] by simp
qed

text \<open>The loop of \<^verbatim>\<open>_freeProxies\<close> nulls the node pointer of the listed proxies and
  of no other.\<close>

lemma fold_invalidate:
  "objs (fold (\<lambda>el. update_proxy el (\<lambda>obj. obj\<lparr>c_node := None\<rparr>)) deps h) r =
     (if r \<in> set deps then (objs h r)\<lparr>c_node := None\<rparr> else objs h r) \<and>
   nobjs (fold (\<lambda>el. update_proxy el (\<lambda>obj. obj\<lparr>c_node := None\<rparr>)) deps h) = nobjs h"
  by (induction deps arbitrary: h) (auto simp add: update_proxy_def)

lemma freeProxies_invalidates:
  assumes "registered h root r"
  shows "c_node (objs (freeProxies (Some root) h) r) = None"
  using assms
  by (auto simp add: freeProxies_def registered_def fold_invalidate update_proxy_def Let_def
      split: option.splits)

lemma nobjs_freeProxies: "nobjs (freeProxies sourceProxy h) = nobjs h"
  by (simp add: freeProxies_def fold_invalidate update_proxy_def Let_def split: option.split)

text \<open>
  C10: in a pass that starts with the creation of the root proxy and goes on with any
  calls of accessors on the proxies of the pass, every proxy created, the root proxy
  included, is recorded in the registry of the root proxy, and the teardown of the
  graph nulls the node pointer of every one of them.
\<close>

theorem pass_registers_and_invalidates:
  assumes "in_scope T (nobjs h) calls (snd (newProxy None c h))"
  shows "(\<forall>r. nobjs h \<le> r \<and> r < nobjs (run_calls T calls (snd (newProxy None c h))) \<longrightarrow>
            registered (run_calls T calls (snd (newProxy None c h))) (nobjs h) r) \<and>
         (\<forall>r. nobjs h \<le> r \<and>
              r < nobjs (freeProxies (Some (nobjs h))
                          (run_calls T calls (snd (newProxy None c h)))) \<longrightarrow>
            c_node (objs (freeProxies (Some (nobjs h))
                            (run_calls T calls (snd (newProxy None c h)))) r) = None)"
proof -
  have "graph (run_calls T calls (snd (newProxy None c h))) (nobjs h)"
    using graph_newProxy_None assms by (rule graph_run_calls)
  then show ?thesis
    by (simp add: graph_def freeProxies_invalidates nobjs_freeProxies)
qed

theorem pass_registers_and_invalidates_witness:
  "nobjs (run_calls sample_api sample_calls root_heap) = 11 \<and>
   map (pointed_name (run_calls sample_api sample_calls root_heap)) [0, 1, 2, 3, 4, 5, 6, 7, 8, 9, 10] =
     [Some ''root'', Some ''e0'', Some ''e2'', Some ''e2'', Some ''root'', Some ''e2'',
      Some ''e0'', Some ''e2'', Some ''e0'', Some ''e2'', Some ''e0''] \<and>
   list_all (registered (run_calls sample_api sample_calls root_heap) 0)
     [0, 1, 2, 3, 4, 5, 6, 7, 8, 9, 10] \<and>
   nobjs torn_down = 11 \<and>
   map (\<lambda>r. c_node (objs torn_down r)) [0, 1, 2, 3, 4, 5, 6, 7, 8, 9, 10] =
     [None, None, None, None, None, None, None, None, None, None, None]"
proof -
  have scope: "in_scope sample_api (nobjs empty_heap) sample_calls
      (snd (newProxy None (Some sample_root) empty_heap))"
    by (simp add: sample_calls_def sample_defs heap_defs tree_defs accessor_defs)
  have size: "nobjs (run_calls sample_api sample_calls root_heap) = 11"
    by (simp add: sample_calls_def sample_defs heap_defs tree_defs accessor_defs)
  have names: "map (pointed_name (run_calls sample_api sample_calls root_heap))
      [0, 1, 2, 3, 4, 5, 6, 7, 8, 9, 10] =
     [Some ''root'', Some ''e0'', Some ''e2'', Some ''e2'', Some ''root'', Some ''e2'',
      Some ''e0'', Some ''e2'', Some ''e0'', Some ''e2'', Some ''e0'']"
    by (simp add: sample_calls_def sample_defs heap_defs tree_defs accessor_defs)
  have empty: "nobjs empty_heap = 0"
    by (simp add: empty_heap_def)
  show ?thesis
    using pass_registers_and_invalidates [OF scope] size names
    by (simp add: empty nobjs_freeProxies torn_down_def flip: root_heap_def)
qed

end
